theory Spec2Isabelle
  imports Main "HOL-Library.Word" "HOL-Library.Finite_Map"
begin

unbundle bit_operations_syntax

section \<open>cachekit: the single cache and the sharded cache\<close>

text \<open>
  A shallow embedding of the Go package \<^verbatim>\<open>cachekit\<close>: the single cache
  (type \<^verbatim>\<open>Cache\<close>, its constructor \<^verbatim>\<open>New\<close>, the sweep
  \<^verbatim>\<open>removeExpiredEntries\<close> and the operations \<^verbatim>\<open>Get\<close>,
  \<^verbatim>\<open>GetWithExpiration\<close>, \<^verbatim>\<open>Add\<close>, \<^verbatim>\<open>Set\<close>, \<^verbatim>\<open>Delete\<close>,
  \<^verbatim>\<open>Flush\<close>, \<^verbatim>\<open>Length\<close>) and the sharded cache of \<^verbatim>\<open>shardcache.go\<close>.

  Conventions of the embedding.
  \<^item> A \<^verbatim>\<open>time.Time\<close> is an \<open>int\<close>: nanoseconds since the Unix epoch. A
    \<^verbatim>\<open>time.Duration\<close> is an \<open>int\<close>: nanoseconds (an int64 in Go; no claim
    depends on its overflow). \<^verbatim>\<open>t.Add(d)\<close> is \<open>t + d\<close> and \<^verbatim>\<open>t.Unix()\<close> is
    the floor of \<open>t / 10^9\<close>.
  \<^item> Every call of \<^verbatim>\<open>time.Now()\<close> in the source is a parameter of the model, in
    the order of the calls.
  \<^item> Every method body runs under the cache's mutex, so a method is one atomic
    state transformer; the mutex itself is not part of the state.
  \<^item> An \<^verbatim>\<open>interface{}\<close> value is a \<open>'v option\<close>, \<open>None\<close> being \<^verbatim>\<open>nil\<close>.
  \<^item> A Go map is a finite map; a Go slice that is only appended to, filtered and
    searched is a list.
  \<^item> A run-time panic is a value of type \<open>panic\<close>; the errors built with
    \<^verbatim>\<open>fmt.Errorf\<close> are values of type \<open>error\<close>.
\<close>

subsection \<open>Time\<close>

definition Unix :: "int \<Rightarrow> int" where
  "Unix t = t div 1000000000"

definition Millisecond :: int where
  "Millisecond = 1000000"

definition Second :: int where
  "Second = 1000000000"

text \<open>The zero value \<^verbatim>\<open>time.Time{}\<close>: 1 January of year 1, 00:00:00 UTC.\<close>

definition zeroTime :: int where
  "zeroTime = - 62135596800 * 1000000000"

text \<open>\<^verbatim>\<open>time.Unix(sec, 0)\<close>.\<close>

definition time_Unix :: "int \<Rightarrow> int" where
  "time_Unix sec = sec * 1000000000"

subsection \<open>Constants and data\<close>

definition DefaultExpirationTime :: int where
  "DefaultExpirationTime = 0"

definition NoExpirationTime :: int where
  "NoExpirationTime = - 1"

record 'v entry =
  Content :: "'v option"
  ExpirationTimestamp :: int

record 'v Cache =
  expirationTime :: int
  cleanupTime :: int
  nextCleanupTime :: int
  expiringKeys :: "string list"
  entries :: "(string, 'v entry) fmap"

datatype error = AlreadyExists string | NotFound string

datatype panic = DivideByZero | IndexOutOfRange | MakeSliceLenOutOfRange | NonPositiveTickerInterval

subsection \<open>Slice helpers\<close>

text \<open>\<^verbatim>\<open>slices.Index\<close>: the index of the first occurrence, or -1.\<close>

fun slices_Index :: "string list \<Rightarrow> string \<Rightarrow> int" where
  "slices_Index [] v = - 1"
| "slices_Index (x # xs) v =
     (if x = v then 0
      else (let i = slices_Index xs v in if i = - 1 then - 1 else i + 1))"

text \<open>\<^verbatim>\<open>slices.Contains\<close>.\<close>

definition slices_Contains :: "string list \<Rightarrow> string \<Rightarrow> bool" where
  "slices_Contains s v = (slices_Index s v \<noteq> - 1)"

definition removeByValue :: "string list \<Rightarrow> string \<Rightarrow> string list" where
  "removeByValue s v =
     (let index = slices_Index s v
      in if index \<noteq> - 1 then take (nat index) s @ drop (nat (index + 1)) s else s)"

subsection \<open>Construction and the sweep\<close>

text \<open>
  \<^verbatim>\<open>New\<close> returns the cache; the second component of the result says whether the
  statement \<^verbatim>\<open>go Cache.cleanUpCache()\<close> was executed.
\<close>

definition New :: "int \<Rightarrow> int \<Rightarrow> int \<Rightarrow> 'v Cache \<times> bool" where
  "New expirationTime' cleanupTime' now =
     (\<lparr> expirationTime = expirationTime',
        cleanupTime = cleanupTime',
        nextCleanupTime = Unix (now + cleanupTime'),
        expiringKeys = [],
        entries = fmempty \<rparr>,
      cleanupTime' \<noteq> 0 \<and> cleanupTime' \<noteq> NoExpirationTime)"

text \<open>
  One iteration of the loop of \<^verbatim>\<open>removeExpiredEntries\<close>, on the pair of the
  entries map and \<^verbatim>\<open>remainingKeys\<close>.
\<close>

definition sweepStep ::
  "int \<Rightarrow> string \<Rightarrow> (string, 'v entry) fmap \<times> string list \<Rightarrow> (string, 'v entry) fmap \<times> string list"
where
  "sweepStep currentTimestamp key st =
     (case fmlookup (fst st) key of
        None \<Rightarrow> st
      | Some e \<Rightarrow>
          if ExpirationTimestamp e < currentTimestamp \<and> ExpirationTimestamp e \<noteq> NoExpirationTime
          then (fmdrop key (fst st), snd st)
          else (fst st, snd st @ [key]))"

definition removeExpiredEntries :: "'v Cache \<Rightarrow> int \<Rightarrow> 'v Cache" where
  "removeExpiredEntries c now =
     (let currentTimestamp = Unix now;
          st = fold (sweepStep currentTimestamp) (expiringKeys c) (entries c, [])
      in c\<lparr> entries := fst st, expiringKeys := snd st \<rparr>)"

text \<open>A number of sweep passes in a row, at the given clock readings.\<close>

definition sweeps :: "int list \<Rightarrow> 'v Cache \<Rightarrow> 'v Cache" where
  "sweeps ts c = fold (\<lambda>now c'. removeExpiredEntries c' now) ts c"

text \<open>
  \<^verbatim>\<open>cleanUpCache\<close>: \<^verbatim>\<open>time.NewTicker\<close> panics on a non-positive interval;
  otherwise one sweep runs per tick. The list holds the clock readings of the sweeps
  of a finite prefix of the ticks.
\<close>

definition cleanUpCache :: "'v Cache \<Rightarrow> int list \<Rightarrow> panic + 'v Cache" where
  "cleanUpCache c ticks =
     (if cleanupTime c \<le> 0 then Inl NonPositiveTickerInterval
      else Inr (sweeps ticks c))"

subsection \<open>Operations of the single cache\<close>

definition Get :: "'v Cache \<Rightarrow> string \<Rightarrow> 'v option \<times> bool" where
  "Get c key =
     (case fmlookup (entries c) key of
        None \<Rightarrow> (None, False)
      | Some e \<Rightarrow> (Content e, True))"

definition GetWithExpiration :: "'v Cache \<Rightarrow> string \<Rightarrow> 'v option \<times> int \<times> bool" where
  "GetWithExpiration c key =
     (case fmlookup (entries c) key of
        None \<Rightarrow> (None, zeroTime, False)
      | Some e \<Rightarrow> (Content e, time_Unix (ExpirationTimestamp e), True))"

definition Add :: "'v Cache \<Rightarrow> string \<Rightarrow> 'v option \<Rightarrow> int \<Rightarrow> int \<Rightarrow> int \<Rightarrow> 'v Cache \<times> error option" where
  "Add c key content expTime now1 now2 =
     (if fmlookup (entries c) key \<noteq> None then (c, Some (AlreadyExists key))
      else
        let expiration = Unix (now1 + expTime);
            expiration = (if expTime = DefaultExpirationTime
                          then Unix (now2 + expirationTime c) else expiration);
            keys = (if expiration \<le> nextCleanupTime c
                    then expiringKeys c @ [key] else expiringKeys c)
        in (c\<lparr> expiringKeys := keys,
               entries := fmupd key \<lparr> Content = content, ExpirationTimestamp = expiration \<rparr> (entries c) \<rparr>,
            None))"

definition Set :: "'v Cache \<Rightarrow> string \<Rightarrow> 'v option \<Rightarrow> int \<Rightarrow> int \<Rightarrow> int \<Rightarrow> 'v Cache" where
  "Set c key content expTime now1 now2 =
     (let expiration = Unix (now1 + expTime);
          expiration = (if expTime = DefaultExpirationTime
                        then Unix (now2 + expirationTime c) else expiration);
          keys = (if slices_Contains (expiringKeys c) key
                  then removeByValue (expiringKeys c) key else expiringKeys c);
          keys = (if expiration \<le> nextCleanupTime c then keys @ [key] else keys)
      in c\<lparr> expiringKeys := keys,
            entries := fmupd key \<lparr> Content = content, ExpirationTimestamp = expiration \<rparr> (entries c) \<rparr>)"

definition Delete :: "'v Cache \<Rightarrow> string \<Rightarrow> 'v Cache \<times> error option" where
  "Delete c key =
     (if fmlookup (entries c) key = None then (c, Some (NotFound key))
      else
        let keys = (if slices_Contains (expiringKeys c) key
                    then removeByValue (expiringKeys c) key else expiringKeys c)
        in (c\<lparr> expiringKeys := keys, entries := fmdrop key (entries c) \<rparr>, None))"

definition Flush :: "'v Cache \<Rightarrow> 'v Cache" where
  "Flush c = c\<lparr> entries := fmempty, expiringKeys := [] \<rparr>"

definition Length :: "'v Cache \<Rightarrow> nat" where
  "Length c = card (fmdom' (entries c))"

subsection \<open>Sequences of operations on one cache\<close>

text \<open>
  The state-changing operations and the sweep, each with its clock readings. A
  history of a cache is a list of them, run from left to right; \<^verbatim>\<open>Get\<close>,
  \<^verbatim>\<open>GetWithExpiration\<close> and \<^verbatim>\<open>Length\<close> only read and are left out.
\<close>

datatype 'v op =
    OpAdd string "'v option" int int int
  | OpSet string "'v option" int int int
  | OpDelete string
  | OpFlush
  | OpSweep int

fun exec :: "'v op \<Rightarrow> 'v Cache \<Rightarrow> 'v Cache" where
  "exec (OpAdd key content expTime now1 now2) c = fst (Add c key content expTime now1 now2)"
| "exec (OpSet key content expTime now1 now2) c = Set c key content expTime now1 now2"
| "exec (OpDelete key) c = fst (Delete c key)"
| "exec OpFlush c = Flush c"
| "exec (OpSweep now) c = removeExpiredEntries c now"

definition run :: "'v op list \<Rightarrow> 'v Cache \<Rightarrow> 'v Cache" where
  "run ops c = fold exec ops c"

subsection \<open>The sharded cache\<close>

text \<open>
  \<^verbatim>\<open>fnv.New32()\<close>, \<^verbatim>\<open>Write\<close>, \<^verbatim>\<open>Sum32\<close>: the 32-bit FNV-1 hash of the
  bytes of the key (multiply by the prime, then xor the byte).
\<close>

definition fnv32 :: "string \<Rightarrow> 32 word" where
  "fnv32 key = fold (\<lambda>b h. (h * 16777619) XOR of_char b) key 2166136261"

text \<open>
  The shards are pointers to caches in Go; here the list holds the caches themselves
  and a pointer is an index into the list (the pointers of one sharded cache are
  pairwise distinct, each coming from its own call of \<^verbatim>\<open>New\<close>).
  \<^verbatim>\<open>shardCount\<close> is a Go \<^verbatim>\<open>int\<close>, taken as 64 bits wide.
\<close>

record 'v ShardedCache =
  shards :: "'v Cache list"
  shardCount :: int

text \<open>The conversion \<^verbatim>\<open>uint32(n)\<close> of an \<^verbatim>\<open>int\<close>.\<close>

definition uint32 :: "int \<Rightarrow> 32 word" where
  "uint32 n = word_of_int n"

text \<open>
  The limit of the Go runtime on the size of one allocation, in bytes: \<open>2^48\<close>, as
  on 64-bit Linux.
\<close>

definition maxAlloc :: int where
  "maxAlloc = 281474976710656"

text \<open>
  \<^verbatim>\<open>make([]*Cache, n)\<close> panics ("len out of range") on a negative length and on
  a length whose \<open>n\<close> pointers of 8 bytes exceed \<open>maxAlloc\<close>. The i-th call of
  \<^verbatim>\<open>New\<close> reads the clock as \<open>nows i\<close>.
\<close>

definition NewShardedCache :: "int \<Rightarrow> int \<Rightarrow> int \<Rightarrow> (nat \<Rightarrow> int) \<Rightarrow> panic + 'v ShardedCache" where
  "NewShardedCache n expirationTime' cleanupTime' nows =
     (if n < 0 \<or> maxAlloc < 8 * n then Inl MakeSliceLenOutOfRange
      else Inr \<lparr> shards = map (\<lambda>i. fst (New expirationTime' cleanupTime' (nows i))) [0..<nat n],
                 shardCount = n \<rparr>)"

text \<open>
  \<^verbatim>\<open>getShard\<close>: the remainder panics on a zero divisor, the indexing on an index
  outside the slice.
\<close>

definition getShard :: "'v ShardedCache \<Rightarrow> string \<Rightarrow> panic + nat" where
  "getShard sc key =
     (let hash = fnv32 key; d = uint32 (shardCount sc)
      in if d = 0 then Inl DivideByZero
         else let shardIndex = unat (hash mod d)
              in if shardIndex < length (shards sc) then Inr shardIndex else Inl IndexOutOfRange)"

definition ShardedCache_Get :: "'v ShardedCache \<Rightarrow> string \<Rightarrow> panic + ('v option \<times> bool)" where
  "ShardedCache_Get sc key =
     (case getShard sc key of
        Inl p \<Rightarrow> Inl p
      | Inr i \<Rightarrow> Inr (Get (shards sc ! i) key))"

definition ShardedCache_GetWithExpiration ::
  "'v ShardedCache \<Rightarrow> string \<Rightarrow> panic + ('v option \<times> int \<times> bool)" where
  "ShardedCache_GetWithExpiration sc key =
     (case getShard sc key of
        Inl p \<Rightarrow> Inl p
      | Inr i \<Rightarrow> Inr (GetWithExpiration (shards sc ! i) key))"

definition ShardedCache_Add ::
  "'v ShardedCache \<Rightarrow> string \<Rightarrow> 'v option \<Rightarrow> int \<Rightarrow> int \<Rightarrow> int \<Rightarrow> panic + ('v ShardedCache \<times> error option)"
where
  "ShardedCache_Add sc key content expTime now1 now2 =
     (case getShard sc key of
        Inl p \<Rightarrow> Inl p
      | Inr i \<Rightarrow>
          let r = Add (shards sc ! i) key content expTime now1 now2
          in Inr (sc\<lparr> shards := (shards sc)[i := fst r] \<rparr>, snd r))"

definition ShardedCache_Set ::
  "'v ShardedCache \<Rightarrow> string \<Rightarrow> 'v option \<Rightarrow> int \<Rightarrow> int \<Rightarrow> int \<Rightarrow> panic + 'v ShardedCache"
where
  "ShardedCache_Set sc key content expTime now1 now2 =
     (case getShard sc key of
        Inl p \<Rightarrow> Inl p
      | Inr i \<Rightarrow>
          Inr (sc\<lparr> shards := (shards sc)[i := Set (shards sc ! i) key content expTime now1 now2] \<rparr>))"

definition ShardedCache_Delete ::
  "'v ShardedCache \<Rightarrow> string \<Rightarrow> panic + ('v ShardedCache \<times> error option)" where
  "ShardedCache_Delete sc key =
     (case getShard sc key of
        Inl p \<Rightarrow> Inl p
      | Inr i \<Rightarrow>
          let r = Delete (shards sc ! i) key
          in Inr (sc\<lparr> shards := (shards sc)[i := fst r] \<rparr>, snd r))"

text \<open>
  \<^verbatim>\<open>Flush\<close> of the sharded cache: the loop runs \<open>i\<close> from 0 below
  \<^verbatim>\<open>shardCount\<close> and panics on an index outside the slice.
\<close>

fun flushLoop :: "nat list \<Rightarrow> 'v Cache list \<Rightarrow> panic + 'v Cache list" where
  "flushLoop [] cs = Inr cs"
| "flushLoop (i # is) cs =
     (if i < length cs then flushLoop is (cs[i := Flush (cs ! i)]) else Inl IndexOutOfRange)"

definition ShardedCache_Flush :: "'v ShardedCache \<Rightarrow> panic + 'v ShardedCache" where
  "ShardedCache_Flush sc =
     (case flushLoop [0..<nat (shardCount sc)] (shards sc) of
        Inl p \<Rightarrow> Inl p
      | Inr cs \<Rightarrow> Inr (sc\<lparr> shards := cs \<rparr>))"

subsection \<open>Predicates used in the statements\<close>

text \<open>
  The condition under which the sweep deletes an entry it inspects (the test of
  \<^verbatim>\<open>removeExpiredEntries\<close>), and its complement on the keys of the tracked
  slice: the key is in the map with an entry that is not deleted.
\<close>

definition expired :: "int \<Rightarrow> 'v entry \<Rightarrow> bool" where
  "expired currentTimestamp e \<longleftrightarrow>
     ExpirationTimestamp e \<noteq> NoExpirationTime \<and> ExpirationTimestamp e < currentTimestamp"

definition survives :: "int \<Rightarrow> (string, 'v entry) fmap \<Rightarrow> string \<Rightarrow> bool" where
  "survives currentTimestamp m k =
     (case fmlookup m k of None \<Rightarrow> False | Some e \<Rightarrow> \<not> expired currentTimestamp e)"

text \<open>
  The invariant of the tracked slice \<^verbatim>\<open>expiringKeys\<close>: no key twice, and every
  key in the map.
\<close>

definition tracked_inv :: "'v Cache \<Rightarrow> bool" where
  "tracked_inv c \<longleftrightarrow>
     distinct (expiringKeys c) \<and> list_all (\<lambda>k. fmlookup (entries c) k \<noteq> None) (expiringKeys c)"

subsection \<open>Example states\<close>

text \<open>
  A cache with four entries, three of them tracked, and one tracked key that is no
  longer in the map.
\<close>

definition sweep_example :: "nat Cache" where
  "sweep_example =
     \<lparr> expirationTime = 10 * Second, cleanupTime = Second, nextCleanupTime = 1700000001,
        expiringKeys = [''a'', ''b'', ''c'', ''gone''],
        entries = fmupd ''a'' \<lparr> Content = Some 1, ExpirationTimestamp = 1700000000 \<rparr>
                 (fmupd ''b'' \<lparr> Content = Some 2, ExpirationTimestamp = - 1 \<rparr>
                 (fmupd ''c'' \<lparr> Content = Some 3, ExpirationTimestamp = 1700000005 \<rparr>
                 (fmupd ''d'' \<lparr> Content = Some 4, ExpirationTimestamp = 1700000000 \<rparr> fmempty))) \<rparr>"

text \<open>
  A history of a cache built at second 1700000000 with a default lifetime of one
  millisecond and a sweep every five seconds.
\<close>

definition history_example :: "nat op list" where
  "history_example =
     [OpSet ''a'' (Some 1) (2 * Millisecond) 1700000000000000500 1700000000000000600,
      OpAdd ''b'' (Some 2) DefaultExpirationTime 1700000000000000700 1700000000000000800,
      OpAdd ''c'' (Some 3) (10 * Second) 1700000000000000900 1700000000000001000,
      OpSet ''d'' (Some 4) (3 * Second) 1700000000000002000 1700000000000002100,
      OpDelete ''b'',
      OpSweep 1700000002000000000]"

definition history_cache :: "nat Cache" where
  "history_cache = run history_example (fst (New Millisecond (5 * Second) 1700000000000000000))"

text \<open>
  The cache of the test \<^verbatim>\<open>TestCleanupBehavior\<close>: default lifetime ten seconds,
  a sweep every second, built at second 1700000000.
\<close>

definition test_cache :: "nat Cache" where
  "test_cache = fst (New (10 * Second) Second 1700000000000000000)"

text \<open>A clock for \<^verbatim>\<open>NewShardedCache\<close>: one microsecond goes by between two shards.\<close>

definition clock_example :: "nat \<Rightarrow> int" where
  "clock_example i = 1700000000000000000 + 1000 * int i"

text \<open>The sharded caches that \<^verbatim>\<open>NewShardedCache\<close> builds for 0, 3 and \<open>2^32\<close> shards.\<close>

definition empty_sharded :: "nat ShardedCache" where
  "empty_sharded = \<lparr> shards = [], shardCount = 0 \<rparr>"

definition three_shards :: "nat ShardedCache" where
  "three_shards =
     \<lparr> shards = [fst (New (10 * Second) 0 1700000000000000000),
                  fst (New (10 * Second) 0 1700000000000001000),
                  fst (New (10 * Second) 0 1700000000000002000)],
        shardCount = 3 \<rparr>"

definition huge_sharded :: "nat ShardedCache" where
  "huge_sharded =
     \<lparr> shards = map (\<lambda>i. fst (New (10 * Second) 0 (clock_example i))) [0..<4294967296],
        shardCount = 4294967296 \<rparr>"

section \<open>Properties\<close>

subsection \<open>Slice helpers\<close>

lemma slices_Index_ge: "- 1 \<le> slices_Index s v"
  by (induction s) (auto simp: Let_def)

lemma slices_Index_notin: "slices_Index s v = - 1 \<longleftrightarrow> v \<notin> set s"
proof (induction s)
  case Nil
  show ?case by simp
next
  case (Cons x xs)
  have "- 1 \<le> slices_Index xs v" by (rule slices_Index_ge)
  with Cons show ?case by (auto simp: Let_def)
qed

lemma slices_Contains_iff: "slices_Contains s v \<longleftrightarrow> v \<in> set s"
  by (simp add: slices_Contains_def slices_Index_notin)

text \<open>\<^verbatim>\<open>removeByValue\<close> removes the first occurrence, if there is one.\<close>

lemma removeByValue_remove1: "removeByValue s v = remove1 v s"
proof (induction s)
  case Nil
  show ?case by (simp add: removeByValue_def)
next
  case (Cons x xs)
  show ?case
  proof (cases "x = v")
    case True
    then show ?thesis by (simp add: removeByValue_def)
  next
    case False
    have ge: "- 1 \<le> slices_Index xs v" by (rule slices_Index_ge)
    show ?thesis
    proof (cases "slices_Index xs v = - 1")
      case True
      with False show ?thesis
        using slices_Index_notin [of xs v] by (simp add: removeByValue_def Let_def remove1_idem)
    next
      case neq: False
      with ge have nn: "0 \<le> slices_Index xs v" by arith
      then have n1: "nat (slices_Index xs v + 1) = Suc (nat (slices_Index xs v))"
        and n2: "nat (slices_Index xs v + 1 + 1) = Suc (Suc (nat (slices_Index xs v)))" by arith+
      have "slices_Index xs v + 1 \<noteq> - 1" using nn by arith
      with False neq Cons n1 n2 show ?thesis
        by (simp add: removeByValue_def Let_def)
    qed
  qed
qed

subsection \<open>The sweep loop\<close>

lemma sweepStep_cases:
  "sweepStep t k (m, acc) =
     (if survives t m k then (m, acc @ [k])
      else if fmlookup m k = None then (m, acc) else (fmdrop k m, acc))"
  by (auto simp: sweepStep_def survives_def expired_def split: option.splits)

lemma survives_fmdrop:
  assumes "\<not> survives t m h"
  shows "survives t (fmdrop h m) = survives t m"
proof
  fix k
  from assms show "survives t (fmdrop h m) k = survives t m k"
    by (cases "k = h") (simp_all add: survives_def)
qed

lemma fold_sweepStep_keys:
  "snd (fold (sweepStep t) ks (m, acc)) = acc @ filter (survives t m) ks"
proof (induction ks arbitrary: m acc)
  case Nil
  show ?case by simp
next
  case (Cons h ks)
  show ?case
  proof (cases "survives t m h")
    case True
    then show ?thesis by (simp add: sweepStep_cases Cons)
  next
    case False
    then have "filter (survives t (fmdrop h m)) ks = filter (survives t m) ks"
      by (simp add: survives_fmdrop)
    with False show ?thesis by (simp add: sweepStep_cases Cons)
  qed
qed

lemma fold_sweepStep_lookup:
  "fmlookup (fst (fold (sweepStep t) ks (m, acc))) k =
     (if k \<in> set ks \<and> \<not> survives t m k then None else fmlookup m k)"
proof (induction ks arbitrary: m acc)
  case Nil
  show ?case by simp
next
  case (Cons h ks)
  show ?case
  proof (cases "survives t m h")
    case True
    then show ?thesis by (auto simp: sweepStep_cases Cons)
  next
    case False
    note nsv = this
    show ?thesis
    proof (cases "fmlookup m h = None")
      case True
      with nsv show ?thesis by (auto simp: sweepStep_cases Cons survives_def)
    next
      case False
      with nsv show ?thesis
        by (auto simp: sweepStep_cases Cons survives_fmdrop)
    qed
  qed
qed

lemma removeExpiredEntries_keys:
  "expiringKeys (removeExpiredEntries c now) =
     filter (survives (Unix now) (entries c)) (expiringKeys c)"
  by (simp add: removeExpiredEntries_def Let_def fold_sweepStep_keys)

lemma removeExpiredEntries_lookup:
  "fmlookup (entries (removeExpiredEntries c now)) k =
     (if k \<in> set (expiringKeys c) \<and> \<not> survives (Unix now) (entries c) k
      then None else fmlookup (entries c) k)"
  by (simp add: removeExpiredEntries_def Let_def fold_sweepStep_lookup)

lemma removeExpiredEntries_fields:
  "expirationTime (removeExpiredEntries c now) = expirationTime c"
  "cleanupTime (removeExpiredEntries c now) = cleanupTime c"
  "nextCleanupTime (removeExpiredEntries c now) = nextCleanupTime c"
  by (simp_all add: removeExpiredEntries_def Let_def)

subsection \<open>The operations, unfolded\<close>

lemma tracked_inv_iff:
  "tracked_inv c \<longleftrightarrow>
     distinct (expiringKeys c) \<and> (\<forall>k \<in> set (expiringKeys c). fmlookup (entries c) k \<noteq> None)"
  by (simp add: tracked_inv_def list_all_iff)

lemma Set_unfold:
  "Set c key content expTime now1 now2 =
     c\<lparr> expiringKeys :=
          (if (if expTime = DefaultExpirationTime then Unix (now2 + expirationTime c)
               else Unix (now1 + expTime)) \<le> nextCleanupTime c
           then remove1 key (expiringKeys c) @ [key] else remove1 key (expiringKeys c)),
        entries := fmupd key
          \<lparr> Content = content,
            ExpirationTimestamp =
              (if expTime = DefaultExpirationTime then Unix (now2 + expirationTime c)
               else Unix (now1 + expTime)) \<rparr> (entries c) \<rparr>"
  by (simp add: Set_def Let_def slices_Contains_iff removeByValue_remove1 remove1_idem)

lemma Add_unfold:
  "Add c key content expTime now1 now2 =
     (if fmlookup (entries c) key \<noteq> None then (c, Some (AlreadyExists key))
      else (c\<lparr> expiringKeys :=
                (if (if expTime = DefaultExpirationTime then Unix (now2 + expirationTime c)
                     else Unix (now1 + expTime)) \<le> nextCleanupTime c
                 then expiringKeys c @ [key] else expiringKeys c),
              entries := fmupd key
                \<lparr> Content = content,
                  ExpirationTimestamp =
                    (if expTime = DefaultExpirationTime then Unix (now2 + expirationTime c)
                     else Unix (now1 + expTime)) \<rparr> (entries c) \<rparr>, None))"
  by (simp add: Add_def Let_def)

lemma Delete_unfold:
  "Delete c key =
     (if fmlookup (entries c) key = None then (c, Some (NotFound key))
      else (c\<lparr> expiringKeys := remove1 key (expiringKeys c),
               entries := fmdrop key (entries c) \<rparr>, None))"
  by (simp add: Delete_def Let_def slices_Contains_iff removeByValue_remove1 remove1_idem)

subsection \<open>The invariant of the tracked slice\<close>

lemma tracked_inv_New: "tracked_inv (fst (New e cl now))"
  by (simp add: tracked_inv_iff New_def)

lemma tracked_inv_Flush: "tracked_inv (Flush c)"
  by (simp add: tracked_inv_iff Flush_def)

lemma tracked_inv_Add:
  assumes "tracked_inv c"
  shows "tracked_inv (fst (Add c key content expTime now1 now2))"
proof (cases "fmlookup (entries c) key = None")
  case True
  with assms have "key \<notin> set (expiringKeys c)"
    by (auto simp: tracked_inv_iff)
  with assms True show ?thesis
    by (auto simp: tracked_inv_iff Add_unfold)
next
  case False
  with assms show ?thesis by (simp add: Add_unfold)
qed

lemma tracked_inv_Set:
  assumes "tracked_inv c"
  shows "tracked_inv (Set c key content expTime now1 now2)"
  using assms by (auto simp: tracked_inv_iff Set_unfold)

lemma tracked_inv_Delete:
  assumes "tracked_inv c"
  shows "tracked_inv (fst (Delete c key))"
  using assms by (auto simp: tracked_inv_iff Delete_unfold)

lemma tracked_inv_removeExpiredEntries:
  assumes "tracked_inv c"
  shows "tracked_inv (removeExpiredEntries c now)"
  using assms
  by (auto simp: tracked_inv_iff removeExpiredEntries_keys removeExpiredEntries_lookup)

lemma tracked_inv_exec: "tracked_inv c \<Longrightarrow> tracked_inv (exec op c)"
  by (cases op)
     (simp_all add: tracked_inv_Add tracked_inv_Set tracked_inv_Delete tracked_inv_Flush
        tracked_inv_removeExpiredEntries)

lemma tracked_inv_run: "tracked_inv c \<Longrightarrow> tracked_inv (run ops c)"
  unfolding run_def by (induction ops arbitrary: c) (simp_all add: tracked_inv_exec)

subsection \<open>Fields that no operation writes, keys that no sweep inspects\<close>

lemma nextCleanupTime_exec: "nextCleanupTime (exec op c) = nextCleanupTime c"
  by (cases op) (simp_all add: Add_unfold Set_unfold Delete_unfold Flush_def removeExpiredEntries_fields)

lemma nextCleanupTime_run: "nextCleanupTime (run ops c) = nextCleanupTime c"
  unfolding run_def by (induction ops arbitrary: c) (simp_all add: nextCleanupTime_exec)

lemma nextCleanupTime_sweeps: "nextCleanupTime (sweeps ts c) = nextCleanupTime c"
  unfolding sweeps_def by (induction ts arbitrary: c) (simp_all add: removeExpiredEntries_fields)

lemma untracked_removeExpiredEntries:
  assumes "k \<notin> set (expiringKeys c)"
  shows "k \<notin> set (expiringKeys (removeExpiredEntries c now))"
    and "fmlookup (entries (removeExpiredEntries c now)) k = fmlookup (entries c) k"
  using assms by (simp_all add: removeExpiredEntries_keys removeExpiredEntries_lookup)

lemma untracked_sweeps:
  assumes "k \<notin> set (expiringKeys c)"
  shows "k \<notin> set (expiringKeys (sweeps ts c)) \<and>
         fmlookup (entries (sweeps ts c)) k = fmlookup (entries c) k"
  using assms unfolding sweeps_def
proof (induction ts arbitrary: c)
  case Nil
  then show ?case by simp
next
  case (Cons t ts)
  from Cons.prems have a: "k \<notin> set (expiringKeys (removeExpiredEntries c t))"
    and b: "fmlookup (entries (removeExpiredEntries c t)) k = fmlookup (entries c) k"
    by (rule untracked_removeExpiredEntries)+
  from Cons.IH [OF a] b show ?case by simp
qed

subsection \<open>Evaluation of the example states\<close>

lemmas eval_defs = New_def Set_unfold Add_unfold Delete_unfold Flush_def Get_def
  removeExpiredEntries_keys removeExpiredEntries_lookup removeExpiredEntries_fields
  survives_def expired_def Unix_def Second_def Millisecond_def
  DefaultExpirationTime_def NoExpirationTime_def

lemma history_cache_eval:
  "expiringKeys history_cache = [''d'']"
  "fmlookup (entries history_cache) ''a'' = None"
  "fmlookup (entries history_cache) ''b'' = None"
  "fmlookup (entries history_cache) ''c'' = Some \<lparr> Content = Some 3, ExpirationTimestamp = 1700000010 \<rparr>"
  "fmlookup (entries history_cache) ''d'' = Some \<lparr> Content = Some 4, ExpirationTimestamp = 1700000003 \<rparr>"
  "nextCleanupTime history_cache = 1700000005"
  by (simp_all add: history_cache_def history_example_def run_def eval_defs)

subsection \<open>Resolution of the lifetime in \<^verbatim>\<open>Add\<close> and \<^verbatim>\<open>Set\<close>\<close>

text \<open>
  Both operations store the same timestamp, by two branches: the lifetime 0 takes the
  default lifetime of the cache (and the second clock reading), every other lifetime
  is added to the first clock reading. There is no branch for the lifetime -1: it is
  added like any other, and after the epoch the result is never the sentinel.
\<close>

lemma ttl_resolution_Set:
  "fmlookup (entries (Set c key content expTime now1 now2)) key =
     Some \<lparr> Content = content,
            ExpirationTimestamp =
              (if expTime = DefaultExpirationTime then Unix (now2 + expirationTime c)
               else Unix (now1 + expTime)) \<rparr>"
  by (simp add: Set_unfold)

lemma ttl_resolution_Add:
  "fmlookup (entries c) key = None \<Longrightarrow>
   fmlookup (entries (fst (Add c key content expTime now1 now2))) key =
     Some \<lparr> Content = content,
            ExpirationTimestamp =
              (if expTime = DefaultExpirationTime then Unix (now2 + expirationTime c)
               else Unix (now1 + expTime)) \<rparr>"
  by (simp add: Add_unfold)

lemma never_ttl_after_epoch:
  "0 < now1 \<Longrightarrow>
   fmlookup (entries (Set c key content NoExpirationTime now1 now2)) key =
     Some \<lparr> Content = content, ExpirationTimestamp = Unix (now1 - 1) \<rparr>
   \<and> Unix (now1 - 1) \<noteq> NoExpirationTime"
  by (simp add: Set_unfold DefaultExpirationTime_def NoExpirationTime_def Unix_def)

text \<open>
  So an entry stored with the lifetime \<^verbatim>\<open>NoExpirationTime\<close> while the key is
  tracked (the stored second is not after \<^verbatim>\<open>nextCleanupTime\<close>) is deleted by
  the first sweep in a later second.
\<close>

lemma never_entry_swept_when_tracked:
  assumes "0 < now1" and "Unix (now1 - 1) \<le> nextCleanupTime c" and "Unix (now1 - 1) < Unix t"
  shows "Get (Set c k v NoExpirationTime now1 now2) k = (v, True)"
    and "Get (removeExpiredEntries (Set c k v NoExpirationTime now1 now2) t) k = (None, False)"
proof -
  have ne: "Unix (now1 - 1) \<noteq> NoExpirationTime"
    using assms(1) by (simp add: NoExpirationTime_def Unix_def)
  show "Get (Set c k v NoExpirationTime now1 now2) k = (v, True)"
    by (simp add: Set_unfold Get_def)
  from assms ne
  show "Get (removeExpiredEntries (Set c k v NoExpirationTime now1 now2) t) k = (None, False)"
    by (simp add: Set_unfold Get_def removeExpiredEntries_lookup survives_def expired_def
        DefaultExpirationTime_def NoExpirationTime_def)
qed

subsection \<open>The sweep task\<close>

lemma cleanUpCache_nonpositive:
  "cl \<le> 0 \<Longrightarrow> cleanUpCache (fst (New e cl now)) ticks = Inl NonPositiveTickerInterval"
  by (simp add: cleanUpCache_def New_def)

lemma cleanUpCache_positive:
  "0 < cl \<Longrightarrow> cleanUpCache (fst (New e cl now)) ticks = Inr (sweeps ticks (fst (New e cl now)))"
  by (simp add: cleanUpCache_def New_def)

subsection \<open>Shard selection\<close>

lemma uint32_in_range: "0 \<le> n \<Longrightarrow> n < 4294967296 \<Longrightarrow> unat (uint32 n) = nat n"
  unfolding uint32_def
  by (simp add: unat_eq_nat_uint uint_word_of_int)

lemma uint32_zero_iff:
  assumes "0 \<le> n" and "n < 4294967296"
  shows "uint32 n = 0 \<longleftrightarrow> n = 0"
proof
  assume "uint32 n = 0"
  then have "unat (uint32 n) = 0" by simp
  with uint32_in_range [OF assms] assms show "n = 0" by simp
next
  assume "n = 0"
  then show "uint32 n = 0" by (simp add: uint32_def)
qed

lemma getShard_in_range:
  assumes "1 \<le> shardCount sc" "shardCount sc < 4294967296"
      and "length (shards sc) = nat (shardCount sc)"
  shows "getShard sc key = Inr (unat (fnv32 key) mod nat (shardCount sc))"
proof -
  have nz: "uint32 (shardCount sc) \<noteq> 0"
    using assms uint32_zero_iff [of "shardCount sc"] by simp
  have "unat (fnv32 key mod uint32 (shardCount sc)) = unat (fnv32 key) mod nat (shardCount sc)"
    using assms uint32_in_range [of "shardCount sc"] by (simp add: unat_mod)
  moreover have "unat (fnv32 key) mod nat (shardCount sc) < length (shards sc)"
    using assms by simp
  ultimately show ?thesis using nz by (simp add: getShard_def Let_def)
qed

text \<open>
  What \<^verbatim>\<open>NewShardedCache\<close> returns has as many shards as \<^verbatim>\<open>shardCount\<close> says,
  no operation changes either, and the shard selected for a key depends on nothing
  else.
\<close>

lemma NewShardedCache_wf:
  "NewShardedCache n e cl nows = Inr sc \<Longrightarrow>
     shardCount sc = n \<and> length (shards sc) = nat n \<and> 0 \<le> n"
  by (auto simp: NewShardedCache_def split: if_splits)

lemma NewShardedCache_too_long:
  "maxAlloc < 8 * n \<Longrightarrow> NewShardedCache n e cl nows = Inl MakeSliceLenOutOfRange"
  by (simp add: NewShardedCache_def)

lemma three_shards_built:
  "NewShardedCache 3 (10 * Second) 0 clock_example = Inr three_shards"
  by (simp add: NewShardedCache_def maxAlloc_def three_shards_def clock_example_def upt_conv_Cons)

lemma getShard_stable:
  "shardCount sc' = shardCount sc \<Longrightarrow> length (shards sc') = length (shards sc) \<Longrightarrow>
   getShard sc' key = getShard sc key"
  by (simp add: getShard_def Let_def)

lemma sharded_ops_keep_shape:
  "ShardedCache_Add sc k v ttl n1 n2 = Inr (sc', err) \<Longrightarrow>
     shardCount sc' = shardCount sc \<and> length (shards sc') = length (shards sc)"
  "ShardedCache_Set sc k v ttl n1 n2 = Inr sc' \<Longrightarrow>
     shardCount sc' = shardCount sc \<and> length (shards sc') = length (shards sc)"
  "ShardedCache_Delete sc k = Inr (sc', err) \<Longrightarrow>
     shardCount sc' = shardCount sc \<and> length (shards sc') = length (shards sc)"
  by (auto simp: ShardedCache_Add_def ShardedCache_Set_def ShardedCache_Delete_def Let_def
      split: sum.splits)

lemma flushLoop_length: "flushLoop is cs = Inr cs' \<Longrightarrow> length cs' = length cs"
  by (induction "is" arbitrary: cs) (auto split: if_splits)

lemma ShardedCache_Flush_keeps_shape:
  "ShardedCache_Flush sc = Inr sc' \<Longrightarrow>
     shardCount sc' = shardCount sc \<and> length (shards sc') = length (shards sc)"
  by (auto simp: ShardedCache_Flush_def flushLoop_length split: sum.splits)

section \<open>The claims\<close>

subsection \<open>C1: an entry stored with the lifetime "never"\<close>

text \<open>
  Claim C1 says that an entry stored by \<^verbatim>\<open>Set\<close> or \<^verbatim>\<open>Add\<close> with the
  lifetime \<^verbatim>\<open>NoExpirationTime\<close> stays retrievable by \<^verbatim>\<open>Get\<close> through every
  later sweep. The code does not do that. In the cache of the test
  \<^verbatim>\<open>TestCleanupBehavior\<close>, the key \<open>c\<close> is stored with \<^verbatim>\<open>NoExpirationTime\<close>
  500 nanoseconds after the construction and is found by \<^verbatim>\<open>Get\<close>; the first
  sweep, one second after the construction, deletes it, and \<^verbatim>\<open>Get\<close> returns
  \<^verbatim>\<open>(nil, false)\<close>. The same happens when the key is stored by \<^verbatim>\<open>Add\<close>.
\<close>

theorem never_entry_is_swept:
  "Get (Set test_cache ''c'' (Some 3) NoExpirationTime 1700000000000000500 1700000000000000600) ''c''
     = (Some 3, True)
   \<and> Get (removeExpiredEntries
            (Set test_cache ''c'' (Some 3) NoExpirationTime 1700000000000000500 1700000000000000600)
            1700000001000000000) ''c''
     = (None, False)
   \<and> Get (removeExpiredEntries
            (fst (Add test_cache ''c'' (Some 3) NoExpirationTime 1700000000000000500 1700000000000000600))
            1700000001000000000) ''c''
     = (None, False)"
  by (simp add: test_cache_def eval_defs)

subsection \<open>C2: the timestamp that \<^verbatim>\<open>Add\<close> and \<^verbatim>\<open>Set\<close> store\<close>

text \<open>
  Claim C2 says that \<^verbatim>\<open>Add\<close> and \<^verbatim>\<open>Set\<close> resolve the lifetime by three
  branches, the lifetime "never" giving the stored sentinel. The code has two
  branches (lemmas \<open>ttl_resolution_Set\<close> and \<open>ttl_resolution_Add\<close>) and none for
  \<^verbatim>\<open>NoExpirationTime\<close>: in the cache of the test, at second 1700000000, both
  operations store the timestamp 1700000000 for that lifetime, which is not the
  sentinel -1.
\<close>

theorem never_ttl_stores_a_finite_timestamp:
  "fmlookup (entries (Set test_cache ''c'' (Some 3) NoExpirationTime 1700000000000000500 1700000000000000600)) ''c''
     = Some \<lparr> Content = Some 3, ExpirationTimestamp = 1700000000 \<rparr>
   \<and> fmlookup (entries (fst (Add test_cache ''c'' (Some 3) NoExpirationTime 1700000000000000500 1700000000000000600))) ''c''
     = Some \<lparr> Content = Some 3, ExpirationTimestamp = 1700000000 \<rparr>
   \<and> NoExpirationTime \<noteq> 1700000000"
  by (simp add: test_cache_def eval_defs)

subsection \<open>C3: a sharded cache with fewer than one shard\<close>

text \<open>
  Claim C3 as stated fails: the construction with \<^verbatim>\<open>shardCount\<close> 0 succeeds, and
  \<^verbatim>\<open>Get\<close> on the result panics with a division by zero in \<^verbatim>\<open>getShard\<close>.
\<close>

theorem zero_shards_accepted:
  "NewShardedCache 0 (10 * Second) Second clock_example = Inr empty_sharded
   \<and> ShardedCache_Get empty_sharded ''key'' = Inl DivideByZero"
  by (simp add: NewShardedCache_def maxAlloc_def empty_sharded_def ShardedCache_Get_def getShard_def
      uint32_def)

text \<open>
  Claim C3, amended. \<^verbatim>\<open>NewShardedCache\<close> does not validate \<^verbatim>\<open>shardCount\<close>. A
  negative \<^verbatim>\<open>shardCount\<close> fails at construction time: the allocation of the shard
  slice panics. \<^verbatim>\<open>shardCount\<close> 0 is accepted: the construction returns a sharded
  cache without shards, and on it \<^verbatim>\<open>getShard\<close>, and with it \<^verbatim>\<open>Get\<close>,
  \<^verbatim>\<open>GetWithExpiration\<close>, \<^verbatim>\<open>Add\<close>, \<^verbatim>\<open>Set\<close> and \<^verbatim>\<open>Delete\<close>, panic with a
  division by zero for every key.
\<close>

theorem shardCount_validation:
  "(n < 0 \<longrightarrow> (NewShardedCache n e cl nows :: panic + 'v ShardedCache) = Inl MakeSliceLenOutOfRange)
   \<and> (NewShardedCache 0 e cl nows :: panic + 'v ShardedCache) = Inr \<lparr> shards = [], shardCount = 0 \<rparr>
   \<and> getShard (\<lparr> shards = [], shardCount = 0 \<rparr> :: 'v ShardedCache) key = Inl DivideByZero
   \<and> ShardedCache_Get (\<lparr> shards = [], shardCount = 0 \<rparr> :: 'v ShardedCache) key = Inl DivideByZero
   \<and> ShardedCache_GetWithExpiration (\<lparr> shards = [], shardCount = 0 \<rparr> :: 'v ShardedCache) key = Inl DivideByZero
   \<and> ShardedCache_Add (\<lparr> shards = [], shardCount = 0 \<rparr> :: 'v ShardedCache) key v ttl n1 n2 = Inl DivideByZero
   \<and> ShardedCache_Set (\<lparr> shards = [], shardCount = 0 \<rparr> :: 'v ShardedCache) key v ttl n1 n2 = Inl DivideByZero
   \<and> ShardedCache_Delete (\<lparr> shards = [], shardCount = 0 \<rparr> :: 'v ShardedCache) key = Inl DivideByZero"
  by (simp add: NewShardedCache_def maxAlloc_def getShard_def uint32_def ShardedCache_Get_def
      ShardedCache_GetWithExpiration_def ShardedCache_Add_def ShardedCache_Set_def
      ShardedCache_Delete_def)

theorem shardCount_validation_witness:
  "(- 1 :: int) < 0
   \<and> (NewShardedCache (- 1) (10 * Second) Second clock_example :: panic + nat ShardedCache)
     = Inl MakeSliceLenOutOfRange
   \<and> (NewShardedCache 0 (10 * Second) Second clock_example :: panic + nat ShardedCache)
     = Inr \<lparr> shards = [], shardCount = 0 \<rparr>
   \<and> ShardedCache_Set (\<lparr> shards = [], shardCount = 0 \<rparr> :: nat ShardedCache) ''key'' (Some 1) Second
        1700000000000000500 1700000000000000600 = Inl DivideByZero"
  using shardCount_validation [of "- 1" "10 * Second" Second clock_example "''key''" "Some (1::nat)" Second
      1700000000000000500 1700000000000000600]
  by simp

subsection \<open>C4: shard selection and delegation\<close>

text \<open>
  Claim C4 as stated fails for a \<^verbatim>\<open>shardCount\<close> that does not fit 32 bits:
  \<^verbatim>\<open>getShard\<close> reduces the hash modulo \<^verbatim>\<open>uint32(shardCount)\<close>. With \<open>2^32\<close>
  shards the divisor is 0, and every operation panics instead of returning what the
  selected shard returns.
\<close>

theorem huge_shardCount_panics:
  "NewShardedCache 4294967296 (10 * Second) 0 clock_example = Inr huge_sharded
   \<and> 1 \<le> shardCount huge_sharded
   \<and> length (shards huge_sharded) = nat (shardCount huge_sharded)
   \<and> getShard huge_sharded ''key'' = Inl DivideByZero
   \<and> ShardedCache_Get huge_sharded ''key'' = Inl DivideByZero"
  by (simp add: NewShardedCache_def maxAlloc_def huge_sharded_def getShard_def uint32_def
      ShardedCache_Get_def)

text \<open>
  Claim C4, amended. For every sharded cache with as many shards as its
  \<^verbatim>\<open>shardCount\<close> says and \<open>1 \<le> shardCount < 2^32\<close>, the shard selected for a key is
  the one at index (FNV-1 hash of the key) mod \<^verbatim>\<open>shardCount\<close>, a function of the
  key and of \<^verbatim>\<open>shardCount\<close> alone, and each of \<^verbatim>\<open>Get\<close>, \<^verbatim>\<open>GetWithExpiration\<close>,
  \<^verbatim>\<open>Add\<close>, \<^verbatim>\<open>Set\<close> and \<^verbatim>\<open>Delete\<close> returns exactly what the same operation of
  the single cache returns on that shard, and changes that shard alone, as that
  operation does.
\<close>

theorem sharded_operations_delegate:
  assumes "1 \<le> shardCount sc" and "shardCount sc < 4294967296"
      and "length (shards sc) = nat (shardCount sc)"
      and "i = unat (fnv32 key) mod nat (shardCount sc)"
  shows "getShard sc key = Inr i
    \<and> i < length (shards sc)
    \<and> ShardedCache_Get sc key = Inr (Get (shards sc ! i) key)
    \<and> ShardedCache_GetWithExpiration sc key = Inr (GetWithExpiration (shards sc ! i) key)
    \<and> ShardedCache_Add sc key v ttl n1 n2 =
        Inr (sc\<lparr> shards := (shards sc)[i := fst (Add (shards sc ! i) key v ttl n1 n2)] \<rparr>,
             snd (Add (shards sc ! i) key v ttl n1 n2))
    \<and> ShardedCache_Set sc key v ttl n1 n2 =
        Inr (sc\<lparr> shards := (shards sc)[i := Set (shards sc ! i) key v ttl n1 n2] \<rparr>)
    \<and> ShardedCache_Delete sc key =
        Inr (sc\<lparr> shards := (shards sc)[i := fst (Delete (shards sc ! i) key)] \<rparr>,
             snd (Delete (shards sc ! i) key))"
proof -
  have g: "getShard sc key = Inr i"
    using assms by (simp add: getShard_in_range)
  have "i < length (shards sc)" using assms by simp
  with g show ?thesis
    by (simp add: ShardedCache_Get_def ShardedCache_GetWithExpiration_def ShardedCache_Add_def
        ShardedCache_Set_def ShardedCache_Delete_def Let_def)
qed

text \<open>With three shards the key \<open>a\<close>, of hash 84696446, goes to the shard at index 2.\<close>

theorem sharded_operations_delegate_witness:
  "getShard three_shards ''a'' = Inr 2
   \<and> ShardedCache_Get three_shards ''a'' = Inr (None, False)
   \<and> ShardedCache_Set three_shards ''a'' (Some 7) Second 1700000000000000500 1700000000000000600
       = Inr (three_shards\<lparr> shards := (shards three_shards)
               [2 := Set (shards three_shards ! 2) ''a'' (Some 7) Second
                       1700000000000000500 1700000000000000600] \<rparr>)"
proof -
  have h1: "1 \<le> shardCount three_shards" by (simp add: three_shards_def)
  have h2: "shardCount three_shards < 4294967296" by (simp add: three_shards_def)
  have h3: "length (shards three_shards) = nat (shardCount three_shards)"
    by (simp add: three_shards_def)
  have h4: "2 = unat (fnv32 ''a'') mod nat (shardCount three_shards)"
    by (simp add: three_shards_def fnv32_def)
  have "Get (shards three_shards ! 2) ''a'' = (None, False)"
    by (simp add: three_shards_def Get_def New_def)
  with sharded_operations_delegate [OF h1 h2 h3 h4, of "Some 7" Second
      1700000000000000500 1700000000000000600]
  show ?thesis by simp
qed

subsection \<open>C5: what one sweep pass removes\<close>

text \<open>
  Claim C5. A sweep pass at clock reading \<open>now\<close> deletes from the map exactly the
  keys of the tracked slice whose entry has an expiration timestamp that is not the
  sentinel -1 and is strictly less than \<open>Unix now\<close>; every other entry of the map is
  left as it was. The new tracked slice is the old one, in order, restricted to the
  keys that are in the map with an entry whose timestamp is the sentinel or at least
  \<open>Unix now\<close>.
\<close>

theorem sweep_removes_exactly_expired_tracked:
  "(\<forall>k. fmlookup (entries (removeExpiredEntries c now)) k =
      (if k \<in> set (expiringKeys c) \<and>
          (case fmlookup (entries c) k of
             None \<Rightarrow> False
           | Some e \<Rightarrow> ExpirationTimestamp e \<noteq> NoExpirationTime \<and> ExpirationTimestamp e < Unix now)
       then None else fmlookup (entries c) k))
   \<and> expiringKeys (removeExpiredEntries c now) =
       filter (\<lambda>k. case fmlookup (entries c) k of
                      None \<Rightarrow> False
                    | Some e \<Rightarrow> ExpirationTimestamp e = NoExpirationTime \<or> Unix now \<le> ExpirationTimestamp e)
              (expiringKeys c)"
proof -
  have sv: "survives (Unix now) (entries c) =
        (\<lambda>k. case fmlookup (entries c) k of
                      None \<Rightarrow> False
                    | Some e \<Rightarrow> ExpirationTimestamp e = NoExpirationTime \<or> Unix now \<le> ExpirationTimestamp e)"
    by (rule ext) (auto simp: survives_def expired_def split: option.splits)
  have "\<And>k. fmlookup (entries (removeExpiredEntries c now)) k =
      (if k \<in> set (expiringKeys c) \<and>
          (case fmlookup (entries c) k of
             None \<Rightarrow> False
           | Some e \<Rightarrow> ExpirationTimestamp e \<noteq> NoExpirationTime \<and> ExpirationTimestamp e < Unix now)
       then None else fmlookup (entries c) k)"
    by (auto simp: removeExpiredEntries_lookup survives_def expired_def split: option.splits)
  moreover have "expiringKeys (removeExpiredEntries c now) =
       filter (\<lambda>k. case fmlookup (entries c) k of
                      None \<Rightarrow> False
                    | Some e \<Rightarrow> ExpirationTimestamp e = NoExpirationTime \<or> Unix now \<le> ExpirationTimestamp e)
              (expiringKeys c)"
    by (simp only: removeExpiredEntries_keys sv)
  ultimately show ?thesis by blast
qed

text \<open>
  At second 1700000005: \<open>a\<close> (expired, tracked) is deleted; \<open>b\<close> (sentinel) and \<open>c\<close>
  (timestamp equal to the current second) are kept and stay tracked; \<open>d\<close> (expired
  but not tracked) is kept; the tracked key without an entry is dropped.
\<close>

theorem sweep_removes_exactly_expired_tracked_witness:
  "fmlookup (entries (removeExpiredEntries sweep_example (1700000005 * Second))) ''a'' = None
   \<and> fmlookup (entries (removeExpiredEntries sweep_example (1700000005 * Second))) ''b''
       = Some \<lparr> Content = Some 2, ExpirationTimestamp = - 1 \<rparr>
   \<and> fmlookup (entries (removeExpiredEntries sweep_example (1700000005 * Second))) ''c''
       = Some \<lparr> Content = Some 3, ExpirationTimestamp = 1700000005 \<rparr>
   \<and> fmlookup (entries (removeExpiredEntries sweep_example (1700000005 * Second))) ''d''
       = Some \<lparr> Content = Some 4, ExpirationTimestamp = 1700000000 \<rparr>
   \<and> expiringKeys (removeExpiredEntries sweep_example (1700000005 * Second)) = [''b'', ''c'']"
  using sweep_removes_exactly_expired_tracked [of sweep_example "1700000005 * Second"]
  by (simp add: sweep_example_def Unix_def Second_def NoExpirationTime_def)

subsection \<open>C6: when the sweep task is started\<close>

text \<open>
  Claim C6 as stated fails: with the sweep interval -2, which is not strictly
  positive, \<^verbatim>\<open>New\<close> starts the sweep task.
\<close>

theorem sweep_started_for_negative_interval:
  "snd (New (10 * Second) (- 2) 1700000000000000000 :: nat Cache \<times> bool) \<and> \<not> (0 :: int) < - 2"
  by (simp add: New_def NoExpirationTime_def)

text \<open>
  Claim C6, amended. \<^verbatim>\<open>New\<close> starts the sweep task if and only if the sweep
  interval is neither 0 nor the sentinel \<^verbatim>\<open>NoExpirationTime\<close> (-1). So every
  strictly positive interval starts it, and the interval 0 and the sentinel never
  start it. Once started on a cache with a strictly positive interval, whatever the
  state of the cache, the task runs one sweep pass per tick: after the ticks at the
  clock readings \<open>ticks\<close> the cache is the one that the passes
  \<^verbatim>\<open>removeExpiredEntries\<close> at these readings, one after the other, leave.
\<close>

theorem sweep_started_iff_not_sentinel:
  "(snd (New e cl now :: 'v Cache \<times> bool) \<longleftrightarrow> cl \<noteq> 0 \<and> cl \<noteq> NoExpirationTime)
   \<and> (0 < cl \<longrightarrow>
        snd (New e cl now :: 'v Cache \<times> bool)
        \<and> cleanupTime (fst (New e cl now :: 'v Cache \<times> bool)) = cl
        \<and> cleanUpCache (fst (New e cl now :: 'v Cache \<times> bool)) ticks
            = Inr (sweeps ticks (fst (New e cl now))))
   \<and> (cl = 0 \<or> cl = NoExpirationTime \<longrightarrow> \<not> snd (New e cl now :: 'v Cache \<times> bool))
   \<and> (0 < cleanupTime (c :: 'v Cache) \<longrightarrow>
        cleanUpCache c ticks = Inr (fold (\<lambda>t c'. removeExpiredEntries c' t) ticks c)
        \<and> cleanUpCache c [] = Inr c
        \<and> cleanUpCache c (t # ticks) = cleanUpCache (removeExpiredEntries c t) ticks)"
  by (auto simp: New_def NoExpirationTime_def cleanUpCache_def sweeps_def
      removeExpiredEntries_fields)

text \<open>
  On the example cache, whose interval is one second, the tick at second 1700000005
  deletes \<open>a\<close> and the tick at second 1700000006 deletes \<open>c\<close>.
\<close>

theorem sweep_started_iff_not_sentinel_witness:
  "(0 :: int) < Second
   \<and> snd (New (10 * Second) Second 1700000000000000000 :: nat Cache \<times> bool)
   \<and> \<not> snd (New (10 * Second) 0 1700000000000000000 :: nat Cache \<times> bool)
   \<and> \<not> snd (New (10 * Second) NoExpirationTime 1700000000000000000 :: nat Cache \<times> bool)
   \<and> 0 < cleanupTime sweep_example
   \<and> cleanUpCache sweep_example [1700000005 * Second, 1700000006 * Second]
       = Inr (removeExpiredEntries (removeExpiredEntries sweep_example (1700000005 * Second))
                (1700000006 * Second))
   \<and> expiringKeys (removeExpiredEntries sweep_example (1700000005 * Second)) = [''b'', ''c'']
   \<and> expiringKeys (removeExpiredEntries (removeExpiredEntries sweep_example (1700000005 * Second))
         (1700000006 * Second)) = [''b'']
   \<and> fmlookup (entries (removeExpiredEntries (removeExpiredEntries sweep_example
         (1700000005 * Second)) (1700000006 * Second))) ''c'' = None"
  using sweep_started_iff_not_sentinel [where e = "10 * Second" and cl = Second
      and now = 1700000000000000000 and c = sweep_example
      and ticks = "[1700000005 * Second, 1700000006 * Second]"]
    sweep_started_iff_not_sentinel [where e = "10 * Second" and cl = 0
      and now = 1700000000000000000 and c = sweep_example and ticks = "[]"]
    sweep_started_iff_not_sentinel [where e = "10 * Second" and cl = NoExpirationTime
      and now = 1700000000000000000 and c = sweep_example and ticks = "[]"]
  by (simp add: sweep_example_def eval_defs)

subsection \<open>C7: \<^verbatim>\<open>Add\<close> on a key that is present\<close>

text \<open>
  Claim C7. For every key that is in the map, \<^verbatim>\<open>Add\<close> returns the error "already
  exists" and the cache it leaves is the cache it found: the whole state is equal,
  and so are the value and the expiration that \<^verbatim>\<open>Get\<close> and
  \<^verbatim>\<open>GetWithExpiration\<close> return for the key, the tracked slice and the length.
\<close>

theorem Add_existing_key_changes_nothing:
  assumes "fmlookup (entries c) k \<noteq> None"
  shows "Add c k v ttl n1 n2 = (c, Some (AlreadyExists k))
         \<and> Get (fst (Add c k v ttl n1 n2)) k = Get c k
         \<and> GetWithExpiration (fst (Add c k v ttl n1 n2)) k = GetWithExpiration c k
         \<and> expiringKeys (fst (Add c k v ttl n1 n2)) = expiringKeys c
         \<and> Length (fst (Add c k v ttl n1 n2)) = Length c"
  using assms by (simp add: Add_def)

theorem Add_existing_key_changes_nothing_witness:
  "fmlookup (entries history_cache) ''d'' \<noteq> None
   \<and> Add history_cache ''d'' (Some 9) NoExpirationTime 1700000003000000000 1700000003000000100
       = (history_cache, Some (AlreadyExists ''d''))
   \<and> Get (fst (Add history_cache ''d'' (Some 9) NoExpirationTime 1700000003000000000 1700000003000000100)) ''d''
       = (Some 4, True)"
  using Add_existing_key_changes_nothing [of history_cache "''d''" "Some 9" NoExpirationTime
      1700000003000000000 1700000003000000100] history_cache_eval(5)
  by (simp add: Get_def)

subsection \<open>C8: \<^verbatim>\<open>Get\<close> and \<^verbatim>\<open>Length\<close> do not look at the expiration\<close>

text \<open>
  Claim C8. \<^verbatim>\<open>Get\<close> returns a value and \<open>true\<close> exactly for the keys of the map,
  the value being the content of the key's entry, whatever the expiration timestamp
  of the entry; and \<^verbatim>\<open>Length\<close> is the number of keys of the map, expired or not.
  Neither takes a clock reading or returns a changed cache.
\<close>

theorem Get_and_Length_ignore_expiration:
  "(Get c k = (v, True) \<longleftrightarrow> (\<exists>e. fmlookup (entries c) k = Some e \<and> Content e = v))
   \<and> (snd (Get c k) \<longleftrightarrow> k \<in> fmdom' (entries c))
   \<and> (\<forall>t. Get (c\<lparr> entries := fmupd k \<lparr> Content = v, ExpirationTimestamp = t \<rparr> (entries c) \<rparr>) k
            = (v, True))
   \<and> Length c = card (fmdom' (entries c))"
  by (auto simp: Get_def Length_def fmlookup_dom'_iff split: option.splits)

text \<open>
  The entry of \<open>d\<close> expired at second 1700000000 and is not tracked: it is found and
  counted, also after a sweep at second 1700000005.
\<close>

theorem Get_and_Length_ignore_expiration_witness:
  "Get sweep_example ''d'' = (Some 4, True)
   \<and> fmlookup (entries sweep_example) ''d'' = Some \<lparr> Content = Some 4, ExpirationTimestamp = 1700000000 \<rparr>
   \<and> Get (removeExpiredEntries sweep_example (1700000005 * Second)) ''d'' = (Some 4, True)
   \<and> Length sweep_example = 4
   \<and> Get sweep_example ''gone'' = (None, False)"
  using Get_and_Length_ignore_expiration [of sweep_example "''d''" "Some 4"]
  by (simp add: sweep_example_def Length_def eval_defs)

subsection \<open>C9: the tracked keys are keys of the map\<close>

text \<open>
  Claim C9. In every state that a cache reaches from its construction by \<^verbatim>\<open>Add\<close>,
  \<^verbatim>\<open>Set\<close>, \<^verbatim>\<open>Delete\<close>, \<^verbatim>\<open>Flush\<close> and sweep passes, in any number and order and
  at any clock readings, every key of the tracked slice is a key of the map.
\<close>

theorem tracked_keys_are_entries:
  "\<forall>k \<in> set (expiringKeys (run ops (fst (New e cl now)))).
     fmlookup (entries (run ops (fst (New e cl now)))) k \<noteq> None"
  using tracked_inv_run [OF tracked_inv_New, of ops e cl now]
  by (simp add: tracked_inv_iff)

theorem tracked_keys_are_entries_witness:
  "expiringKeys (run history_example (fst (New Millisecond (5 * Second) 1700000000000000000))) = [''d'']
   \<and> fmlookup (entries (run history_example (fst (New Millisecond (5 * Second) 1700000000000000000)))) ''d'' \<noteq> None"
  using tracked_keys_are_entries [of history_example Millisecond "5 * Second" 1700000000000000000]
    history_cache_eval(1)
  by (simp add: history_cache_def)

subsection \<open>C10: an entry that expires after the first scheduled sweep\<close>

text \<open>
  Claim C10. \<^verbatim>\<open>nextCleanupTime\<close> is the value computed by \<^verbatim>\<open>New\<close> in every
  reachable state. When \<^verbatim>\<open>Add\<close> (successfully) or \<^verbatim>\<open>Set\<close> stores, in a reachable
  state, an entry whose expiration timestamp is greater than \<^verbatim>\<open>nextCleanupTime\<close>,
  the key is not in the tracked slice afterwards, and after any number of sweep
  passes, at any clock readings, it is still not tracked, the entry is still in the
  map and \<^verbatim>\<open>Get\<close> still returns its content.
\<close>

theorem untracked_entry_outlives_every_sweep:
  assumes reach: "c = run ops (fst (New e cl t0))"
      and ins: "Add c k v ttl n1 n2 = (c', None) \<or> Set c k v ttl n1 n2 = c'"
      and ent: "fmlookup (entries c') k = Some en"
      and late: "nextCleanupTime c' < ExpirationTimestamp en"
  shows "nextCleanupTime c' = Unix (t0 + cl)
         \<and> k \<notin> set (expiringKeys c')
         \<and> (\<forall>ts. nextCleanupTime (sweeps ts c') = Unix (t0 + cl)
                 \<and> k \<notin> set (expiringKeys (sweeps ts c'))
                 \<and> fmlookup (entries (sweeps ts c')) k = Some en
                 \<and> Get (sweeps ts c') k = (Content en, True))"
proof -
  have inv: "tracked_inv c"
    unfolding reach by (rule tracked_inv_run [OF tracked_inv_New])
  have nc: "nextCleanupTime c = Unix (t0 + cl)"
    unfolding reach by (simp add: nextCleanupTime_run New_def)
  from ins have n': "nextCleanupTime c' = nextCleanupTime c"
  proof
    assume "Add c k v ttl n1 n2 = (c', None)"
    then have "c' = exec (OpAdd k v ttl n1 n2) c" by simp
    then show ?thesis by (simp only: nextCleanupTime_exec)
  next
    assume "Set c k v ttl n1 n2 = c'"
    then have "c' = exec (OpSet k v ttl n1 n2) c" by simp
    then show ?thesis by (simp only: nextCleanupTime_exec)
  qed
  from ins have untracked: "k \<notin> set (expiringKeys c')"
  proof
    assume a: "Add c k v ttl n1 n2 = (c', None)"
    then have absent: "fmlookup (entries c) k = None"
      by (auto simp: Add_unfold split: if_splits)
    with inv have "k \<notin> set (expiringKeys c)"
      by (auto simp: tracked_inv_iff)
    with a absent ent late n' show ?thesis
      by (auto simp: Add_unfold split: if_splits)
  next
    assume s: "Set c k v ttl n1 n2 = c'"
    from inv have "k \<notin> set (remove1 k (expiringKeys c))"
      by (simp add: tracked_inv_iff)
    with s ent late n' show ?thesis
      by (auto simp: Set_unfold split: if_splits)
  qed
  have "\<And>ts. nextCleanupTime (sweeps ts c') = Unix (t0 + cl)
                 \<and> k \<notin> set (expiringKeys (sweeps ts c'))
                 \<and> fmlookup (entries (sweeps ts c')) k = Some en
                 \<and> Get (sweeps ts c') k = (Content en, True)"
    using untracked_sweeps [OF untracked] ent n' nc
    by (simp add: nextCleanupTime_sweeps Get_def)
  with n' nc untracked show ?thesis by simp
qed

text \<open>
  In the example history, \<open>e\<close> is stored at second 1700000003 for ten seconds, past
  the \<^verbatim>\<open>nextCleanupTime\<close> 1700000005. Sweeps at seconds 1700000020 and 1700000100,
  after its expiration at second 1700000013, leave it in the cache.
\<close>

theorem untracked_entry_outlives_every_sweep_witness:
  "fmlookup (entries (Set history_cache ''e'' (Some 5) (10 * Second)
       1700000003000000000 1700000003000000100)) ''e''
     = Some \<lparr> Content = Some 5, ExpirationTimestamp = 1700000013 \<rparr>
   \<and> nextCleanupTime (Set history_cache ''e'' (Some 5) (10 * Second)
       1700000003000000000 1700000003000000100) = 1700000005
   \<and> Get (sweeps [1700000020000000000, 1700000100000000000]
       (Set history_cache ''e'' (Some 5) (10 * Second) 1700000003000000000 1700000003000000100)) ''e''
     = (Some 5, True)"
proof -
  let ?c' = "Set history_cache ''e'' (Some 5) (10 * Second) 1700000003000000000 1700000003000000100"
  let ?en = "\<lparr> Content = Some (5::nat), ExpirationTimestamp = 1700000013 \<rparr>"
  have ins: "Add history_cache ''e'' (Some 5) (10 * Second) 1700000003000000000 1700000003000000100
               = (?c', None) \<or>
             Set history_cache ''e'' (Some 5) (10 * Second) 1700000003000000000 1700000003000000100
               = ?c'"
    by simp
  have ent: "fmlookup (entries ?c') ''e'' = Some ?en"
    by (simp add: Set_unfold Unix_def Second_def DefaultExpirationTime_def)
  have nxt: "nextCleanupTime ?c' = 1700000005"
    by (simp add: Set_unfold history_cache_eval)
  then have late: "nextCleanupTime ?c' < ExpirationTimestamp ?en" by simp
  from untracked_entry_outlives_every_sweep [OF history_cache_def ins ent late] ent nxt
  show ?thesis by simp
qed

end
